theory Spec2Isabelle
  imports Complex_Main
begin

section \<open>The ASE enforcement engine (include/ase/ase.hpp)\<close>

text \<open>
  The engine is a class template over an opaque \<open>State\<close> and \<open>Step\<close>; the model is
  polymorphic in \<open>'st\<close> and \<open>'sp\<close>. The only arithmetic the engine itself performs is
  \<open>k = 1.0\<close> and \<open>k *= scale_factor\<close> on a \<open>double\<close>: the model keeps that type abstract
  (\<open>'k\<close>, any type with \<open>1\<close> and \<open>*\<close>), so the general theorems do not depend on how
  multiplication rounds. The concrete scenarios instantiate \<open>'k\<close>, \<open>'st\<close> and \<open>'sp\<close> with
  \<open>real\<close>, reading the decimals of the scenarios as exact numbers.
\<close>

subsection \<open>Mode, Config, Dependencies\<close>

text \<open>
  \<open>enum class Mode : std::uint8_t { Reject = 0, Scale = 1, Project = 2 }\<close>. The switch
  of \<open>enforce\<close> has no default label and is followed by a defensive return; \<open>OutOfRange\<close>
  stands for every value of the underlying byte other than 0, 1 and 2.
\<close>

datatype Mode = Reject | Scale | Project | OutOfRange

text \<open>\<open>max_scale_attempts\<close> is a \<open>std::size_t\<close>; the loop counter stays below it, so no
  wrap-around occurs and \<open>nat\<close> is used.\<close>

record 'k Config =
  mode :: Mode
  max_scale_attempts :: nat
  scale_factor :: 'k

text \<open>
  A host predicate may raise a C++ exception instead of returning.
\<close>

datatype 'a outcome = Returns 'a | Throws

text \<open>
  The four capabilities are plain function pointers, \<open>nullptr\<close> by default: \<open>None\<close> is
  the null pointer. A function pointer may read and write state of the host program, so
  each capability is a transformer of a host state \<open>'h\<close>. \<open>scale_step\<close> and
  \<open>project_step\<close> return a \<open>bool\<close> and write their result through the reference
  parameter \<open>out\<close>: the model passes the value \<open>out\<close> holds before the call and gets
  back the flag and the value it holds after. Only \<open>is_admissible\<close> is called inside a
  \<open>try\<close> block, and only it is given the outcome \<open>Throws\<close>.
\<close>

record ('st, 'sp, 'k, 'h) Dependencies =
  is_admissible :: "('st \<Rightarrow> 'sp \<Rightarrow> 'h \<Rightarrow> bool outcome \<times> 'h) option"
  neutral_step :: "('h \<Rightarrow> 'sp \<times> 'h) option"
  scale_step :: "('sp \<Rightarrow> 'k \<Rightarrow> 'sp \<Rightarrow> 'h \<Rightarrow> (bool \<times> 'sp) \<times> 'h) option"
  project_step :: "('st \<Rightarrow> 'sp \<Rightarrow> 'sp \<Rightarrow> 'h \<Rightarrow> (bool \<times> 'sp) \<times> 'h) option"

subsection \<open>Capability invocations\<close>

text \<open>
  Every call through one of the four function pointers is recorded, with its arguments,
  in a log that is threaded with the host state.
\<close>

datatype ('st, 'sp, 'k) call =
  IsAdmissible 'st 'sp
  | NeutralStep
  | ScaleStep 'sp 'k
  | ProjectStep 'st 'sp

type_synonym ('st, 'sp, 'k, 'h) world = "'h \<times> ('st, 'sp, 'k) call list"

fun is_adm_call :: "('st, 'sp, 'k) call \<Rightarrow> bool" where
  "is_adm_call (IsAdmissible S dS) = True"
| "is_adm_call c = False"

fun is_project_call :: "('st, 'sp, 'k) call \<Rightarrow> bool" where
  "is_project_call (ProjectStep S dS) = True"
| "is_project_call c = False"

definition adm_count :: "('st, 'sp, 'k) call list \<Rightarrow> nat" where
  "adm_count cs = length (filter is_adm_call cs)"

definition project_count :: "('st, 'sp, 'k) call list \<Rightarrow> nat" where
  "project_count cs = length (filter is_project_call cs)"

subsection \<open>Engine\<close>

text \<open>
  \<open>neutral_safe\<close>: the host's neutral step when the pointer is set, else the
  value-initialised \<open>Step{}\<close>, which the model takes as the parameter \<open>step_init\<close>.
\<close>

definition neutral_safe ::
  "('st, 'sp, 'k, 'h) Dependencies \<Rightarrow> 'sp \<Rightarrow> ('st, 'sp, 'k, 'h) world
     \<Rightarrow> 'sp \<times> ('st, 'sp, 'k, 'h) world" where
  "neutral_safe deps step_init w =
     (case neutral_step deps of
        Some nz \<Rightarrow> (case nz (fst w) of (r, h') \<Rightarrow> (r, (h', snd w @ [NeutralStep])))
      | None \<Rightarrow> (step_init, w))"

text \<open>
  \<open>safe_is_admissible\<close> is only reached after \<open>enforce\<close> has found the pointer
  non-null; the model passes the function \<open>adm\<close> it points to. The result is the pair
  of the returned flag and the value left in the reference parameter \<open>out\<close>.
\<close>

definition safe_is_admissible ::
  "('st \<Rightarrow> 'sp \<Rightarrow> 'h \<Rightarrow> bool outcome \<times> 'h) \<Rightarrow> 'st \<Rightarrow> 'sp \<Rightarrow> ('st, 'sp, 'k, 'h) world
     \<Rightarrow> (bool \<times> bool) \<times> ('st, 'sp, 'k, 'h) world" where
  "safe_is_admissible adm S dS w =
     (case adm S dS (fst w) of
        (Returns b, h') \<Rightarrow> ((True, b), (h', snd w @ [IsAdmissible S dS]))
      | (Throws, h') \<Rightarrow> ((False, False), (h', snd w @ [IsAdmissible S dS])))"

text \<open>
  The loop of \<open>enforce_scale\<close>: \<open>for (i = 0; i < max_scale_attempts; ++i)\<close> with the
  running multiplier \<open>k\<close>; \<open>sc\<close> is the non-null \<open>scale_step\<close> and \<open>adm\<close> the non-null
  \<open>is_admissible\<close>, which \<open>enforce\<close> hands down to \<open>enforce_scale\<close> and
  \<open>enforce_project\<close>.
\<close>

function scale_attempts ::
  "'k::{one,times} Config \<Rightarrow> ('st, 'sp, 'k, 'h) Dependencies \<Rightarrow> 'sp
     \<Rightarrow> ('st \<Rightarrow> 'sp \<Rightarrow> 'h \<Rightarrow> bool outcome \<times> 'h)
     \<Rightarrow> ('sp \<Rightarrow> 'k \<Rightarrow> 'sp \<Rightarrow> 'h \<Rightarrow> (bool \<times> 'sp) \<times> 'h)
     \<Rightarrow> 'st \<Rightarrow> 'sp \<Rightarrow> nat \<Rightarrow> 'k \<Rightarrow> ('st, 'sp, 'k, 'h) world
     \<Rightarrow> 'sp \<times> ('st, 'sp, 'k, 'h) world" where
  "scale_attempts cfg deps step_init adm sc S proposed i k w =
     (if i < max_scale_attempts cfg then
        (case sc proposed k step_init (fst w) of
           ((ok, scaled), h1) \<Rightarrow>
             if \<not> ok then neutral_safe deps step_init (h1, snd w @ [ScaleStep proposed k])
             else
               (case safe_is_admissible adm S scaled (h1, snd w @ [ScaleStep proposed k]) of
                  ((evaluated, admissible), w2) \<Rightarrow>
                    if \<not> evaluated then neutral_safe deps step_init w2
                    else if admissible then (scaled, w2)
                    else scale_attempts cfg deps step_init adm sc S proposed
                           (i + 1) (k * scale_factor cfg) w2))
      else neutral_safe deps step_init w)"
  by pat_completeness auto
termination
  by (relation "measure (\<lambda>(cfg, deps, step_init, adm, sc, S, proposed, i, k, w).
        max_scale_attempts cfg - i)") auto

declare scale_attempts.simps [simp del]

definition enforce_scale ::
  "'k::{one,times} Config \<Rightarrow> ('st, 'sp, 'k, 'h) Dependencies \<Rightarrow> 'sp
     \<Rightarrow> ('st \<Rightarrow> 'sp \<Rightarrow> 'h \<Rightarrow> bool outcome \<times> 'h)
     \<Rightarrow> 'st \<Rightarrow> 'sp \<Rightarrow> ('st, 'sp, 'k, 'h) world \<Rightarrow> 'sp \<times> ('st, 'sp, 'k, 'h) world" where
  "enforce_scale cfg deps step_init adm S proposed w =
     (case scale_step deps of
        None \<Rightarrow> neutral_safe deps step_init w
      | Some sc \<Rightarrow> scale_attempts cfg deps step_init adm sc S proposed 0 1 w)"

definition enforce_project ::
  "('st, 'sp, 'k, 'h) Dependencies \<Rightarrow> 'sp
     \<Rightarrow> ('st \<Rightarrow> 'sp \<Rightarrow> 'h \<Rightarrow> bool outcome \<times> 'h)
     \<Rightarrow> 'st \<Rightarrow> 'sp \<Rightarrow> ('st, 'sp, 'k, 'h) world \<Rightarrow> 'sp \<times> ('st, 'sp, 'k, 'h) world" where
  "enforce_project deps step_init adm S proposed w =
     (case project_step deps of
        None \<Rightarrow> neutral_safe deps step_init w
      | Some pj \<Rightarrow>
          (case pj S proposed step_init (fst w) of
             ((ok, projected), h1) \<Rightarrow>
               if \<not> ok then neutral_safe deps step_init (h1, snd w @ [ProjectStep S proposed])
               else
                 (case safe_is_admissible adm S projected
                         (h1, snd w @ [ProjectStep S proposed]) of
                    ((evaluated, admissible), w2) \<Rightarrow>
                      if \<not> evaluated then neutral_safe deps step_init w2
                      else if \<not> admissible then neutral_safe deps step_init w2
                      else (projected, w2))))"

text \<open>
  \<open>Engine::enforce\<close>. The engine's members \<open>cfg_\<close> and \<open>deps_\<close> are the arguments
  \<open>cfg\<close> and \<open>deps\<close>; the method is \<open>const\<close> and they are never assigned.
\<close>

definition enforce ::
  "'k::{one,times} Config \<Rightarrow> ('st, 'sp, 'k, 'h) Dependencies \<Rightarrow> 'sp
     \<Rightarrow> 'st \<Rightarrow> 'sp \<Rightarrow> ('st, 'sp, 'k, 'h) world \<Rightarrow> 'sp \<times> ('st, 'sp, 'k, 'h) world" where
  "enforce cfg deps step_init S proposed w =
     (case is_admissible deps of
        None \<Rightarrow> neutral_safe deps step_init w
      | Some adm \<Rightarrow>
          if neutral_step deps = None then neutral_safe deps step_init w
          else
            (case safe_is_admissible adm S proposed w of
               ((evaluated, admissible), w1) \<Rightarrow>
                 if \<not> evaluated then neutral_safe deps step_init w1
                 else if admissible then (proposed, w1)
                 else
                   (case mode cfg of
                      Reject \<Rightarrow> neutral_safe deps step_init w1
                    | Scale \<Rightarrow> enforce_scale cfg deps step_init adm S proposed w1
                    | Project \<Rightarrow> enforce_project deps step_init adm S proposed w1
                    | OutOfRange \<Rightarrow> neutral_safe deps step_init w1)))"

subsection \<open>Pure capability sets\<close>

text \<open>
  A capability set of pure functions: no capability reads or writes the host state.
  A pure nullary \<open>neutral_step\<close> is a constant.
\<close>

definition lift_adm :: "('st \<Rightarrow> 'sp \<Rightarrow> bool outcome) \<Rightarrow> 'st \<Rightarrow> 'sp \<Rightarrow> 'h \<Rightarrow> bool outcome \<times> 'h" where
  "lift_adm f S dS h = (f S dS, h)"

definition lift_neutral :: "'sp \<Rightarrow> 'h \<Rightarrow> 'sp \<times> 'h" where
  "lift_neutral n h = (n, h)"

definition lift_transform ::
  "('a \<Rightarrow> 'b \<Rightarrow> 'sp \<Rightarrow> bool \<times> 'sp) \<Rightarrow> 'a \<Rightarrow> 'b \<Rightarrow> 'sp \<Rightarrow> 'h \<Rightarrow> (bool \<times> 'sp) \<times> 'h" where
  "lift_transform f a b out h = (f a b out, h)"

definition pure_deps ::
  "('st \<Rightarrow> 'sp \<Rightarrow> bool outcome) option \<Rightarrow> 'sp option
     \<Rightarrow> ('sp \<Rightarrow> 'k \<Rightarrow> 'sp \<Rightarrow> bool \<times> 'sp) option
     \<Rightarrow> ('st \<Rightarrow> 'sp \<Rightarrow> 'sp \<Rightarrow> bool \<times> 'sp) option
     \<Rightarrow> ('st, 'sp, 'k, 'h) Dependencies" where
  "pure_deps adm nz sc pj =
     \<lparr> is_admissible = map_option lift_adm adm,
       neutral_step = map_option lift_neutral nz,
       scale_step = map_option lift_transform sc,
       project_step = map_option lift_transform pj \<rparr>"

text \<open>
  The multiplier of attempt \<open>i\<close> of the scale loop: \<open>1\<close>, multiplied \<open>i\<close> times by the
  scale factor \<open>f\<close>; and what a pure \<open>scale_step\<close> makes of it (the flag and the value
  of \<open>scaled\<close>, which starts as \<open>Step{}\<close>).
\<close>

definition k_at :: "'k::{one,times} \<Rightarrow> nat \<Rightarrow> 'k" where
  "k_at f i = ((\<lambda>k. k * f) ^^ i) 1"

definition candidate ::
  "('sp \<Rightarrow> 'k \<Rightarrow> 'sp \<Rightarrow> bool \<times> 'sp) \<Rightarrow> 'sp \<Rightarrow> 'k::{one,times} \<Rightarrow> 'sp \<Rightarrow> nat \<Rightarrow> bool \<times> 'sp" where
  "candidate sc proposed f step_init i = sc proposed (k_at f i) step_init"


text \<open>The calls of attempts \<open>i, \<dots>, m - 1\<close> when each of them fails cleanly.\<close>

definition attempt_calls ::
  "('sp \<Rightarrow> 'k \<Rightarrow> 'sp \<Rightarrow> bool \<times> 'sp) \<Rightarrow> 'st \<Rightarrow> 'sp \<Rightarrow> 'k::{one,times} \<Rightarrow> 'sp \<Rightarrow> nat \<Rightarrow> nat
     \<Rightarrow> ('st, 'sp, 'k) call list" where
  "attempt_calls sc S proposed f step_init i m =
     concat (map (\<lambda>j. [ScaleStep proposed (k_at f j),
                       IsAdmissible S (snd (candidate sc proposed f step_init j))]) [i..<m])"

text \<open>
  For capabilities that need not be pure: the state of the scale loop after \<open>m\<close> attempts
  that each fail cleanly, started with multiplier \<open>k\<close> in world \<open>w\<close>. The result is the
  multiplier and the world with which the next attempt starts, or \<open>None\<close> when one of
  the \<open>m\<close> attempts does not fail cleanly (the transform reports failure, or the
  predicate raises or returns true).
\<close>

primrec clean_attempts ::
  "'k::{one,times} Config
     \<Rightarrow> ('st \<Rightarrow> 'sp \<Rightarrow> 'h \<Rightarrow> bool outcome \<times> 'h)
     \<Rightarrow> ('sp \<Rightarrow> 'k \<Rightarrow> 'sp \<Rightarrow> 'h \<Rightarrow> (bool \<times> 'sp) \<times> 'h)
     \<Rightarrow> 'sp \<Rightarrow> 'st \<Rightarrow> 'sp \<Rightarrow> nat \<Rightarrow> 'k \<Rightarrow> ('st, 'sp, 'k, 'h) world
     \<Rightarrow> ('k \<times> ('st, 'sp, 'k, 'h) world) option" where
  "clean_attempts cfg adm sc step_init S proposed 0 k w = Some (k, w)"
| "clean_attempts cfg adm sc step_init S proposed (Suc m) k w =
     (case sc proposed k step_init (fst w) of
        ((ok, scaled), h1) \<Rightarrow>
          if \<not> ok then None
          else
            (case adm S scaled h1 of
               (Returns b, h2) \<Rightarrow>
                 if b then None
                 else clean_attempts cfg adm sc step_init S proposed m (k * scale_factor cfg)
                        (h2, snd w @ [ScaleStep proposed k, IsAdmissible S scaled])
             | (Throws, h2) \<Rightarrow> None))"

subsection \<open>The scalar hosts of tests/test_core.cpp\<close>

text \<open>
  State and step are \<open>double\<close>; the hosts are modelled over \<open>real\<close>, with exact sums,
  products and differences. Every real is finite, so \<open>std::isfinite\<close> holds throughout:
  NaN, the infinities and overflow are not represented. The model computes what the code
  computes on doubles where the operations involved are exact in binary64 or round
  without crossing the bound they are compared with; it does not where a sum rounds onto
  the bound or a product overflows.
\<close>

definition is_finite :: "real \<Rightarrow> bool" where
  "is_finite x = True"

definition admissible_limit :: "real \<Rightarrow> real \<Rightarrow> bool" where
  "admissible_limit S dS =
     (if \<not> is_finite S \<or> \<not> is_finite dS then False
      else let next = S + dS in
        if \<not> is_finite next then False else \<bar>next\<bar> \<le> 1)"

definition neutral_zero :: real where
  "neutral_zero = 0"

definition scale_mul :: "real \<Rightarrow> real \<Rightarrow> real \<Rightarrow> bool \<times> real" where
  "scale_mul x k out =
     (if \<not> is_finite x \<or> \<not> is_finite k then (False, out)
      else (is_finite (x * k), x * k))"

definition project_clamp :: "real \<Rightarrow> real \<Rightarrow> real \<Rightarrow> bool \<times> real" where
  "project_clamp S dS out =
     (if \<not> is_finite S \<or> \<not> is_finite dS then (False, out)
      else let next = S + dS in
        if \<not> is_finite next then (False, out)
        else let next1 = (if next > 1 then 1 else next);
                 next2 = (if next1 < - 1 then - 1 else next1)
             in (is_finite (next2 - S), next2 - S))"

text \<open>
  The literal \<open>0.9\<close> of the tests is not a binary64 number. The double it denotes is
  \<open>8106479329266893 / 2^53\<close> (\<open>0x1.ccccccccccccdp-1\<close>), and the double that the literal
  \<open>0.1\<close> denotes is \<open>3602879701896397 / 2^55\<close> (\<open>0x1.999999999999ap-4\<close>).
\<close>

definition double_0_9 :: real where
  "double_0_9 = 8106479329266893 / 2 ^ 53"

definition double_0_1 :: real where
  "double_0_1 = 3602879701896397 / 2 ^ 55"

text \<open>The capability sets the tests build: one with \<open>scale_mul\<close> and a null
  \<open>project_step\<close>, one with \<open>project_clamp\<close> and a null \<open>scale_step\<close>.\<close>

definition scalar_deps :: "(real, real, real, unit) Dependencies" where
  "scalar_deps =
     pure_deps (Some (\<lambda>S dS. Returns (admissible_limit S dS))) (Some neutral_zero)
       (Some scale_mul) None"

definition scalar_project_deps :: "(real, real, real, unit) Dependencies" where
  "scalar_project_deps =
     pure_deps (Some (\<lambda>S dS. Returns (admissible_limit S dS))) (Some neutral_zero)
       None (Some project_clamp)"

text \<open>The same capability set with a null \<open>neutral_step\<close>.\<close>

definition scalar_deps_null_neutral :: "(real, real, real, unit) Dependencies" where
  "scalar_deps_null_neutral =
     pure_deps (Some (\<lambda>S dS. Returns (admissible_limit S dS))) None (Some scale_mul) None"

text \<open>
  The configurations of the tests: \<open>Config{Mode::Reject}\<close>, \<open>Config{Mode::Scale, 16, 0.5}\<close>,
  \<open>Config{Mode::Scale, 4, 1.0}\<close> and \<open>Config{Mode::Project}\<close>; the fields left out take
  the defaults of the struct, 16 and 0.5.
\<close>

definition reject_cfg :: "real Config" where
  "reject_cfg = \<lparr> mode = Reject, max_scale_attempts = 16, scale_factor = 1 / 2 \<rparr>"

definition scale_cfg :: "real Config" where
  "scale_cfg = \<lparr> mode = Scale, max_scale_attempts = 16, scale_factor = 1 / 2 \<rparr>"

definition scale_stuck_cfg :: "real Config" where
  "scale_stuck_cfg = \<lparr> mode = Scale, max_scale_attempts = 4, scale_factor = 1 \<rparr>"

definition project_cfg :: "real Config" where
  "project_cfg = \<lparr> mode = Project, max_scale_attempts = 16, scale_factor = 1 / 2 \<rparr>"

subsection \<open>The counting host of tests/test_integration.cpp\<close>

text \<open>
  \<open>admissible_counted\<close> increments the global \<open>g_eval_calls\<close> and then decides as
  \<open>admissible_limit\<close> does: the host state is that counter.
\<close>

definition admissible_counted :: "real \<Rightarrow> real \<Rightarrow> int \<Rightarrow> bool outcome \<times> int" where
  "admissible_counted S dS g_eval_calls =
     (Returns (admissible_limit S dS), g_eval_calls + 1)"

definition counted_deps :: "(real, real, real, int) Dependencies" where
  "counted_deps =
     \<lparr> is_admissible = Some admissible_counted,
       neutral_step = Some (lift_neutral neutral_zero),
       scale_step = Some (lift_transform scale_mul),
       project_step = None \<rparr>"

subsection \<open>Hosts that misbehave\<close>

text \<open>
  Two predicates of the pointer's type that no test has. The first counts its calls as
  \<open>admissible_counted\<close> does, raises on a step of exactly \<open>0.25\<close> (after counting) and
  decides as \<open>admissible_limit\<close> otherwise. The second keeps a flag in the host state and
  answers with it, flipping it at each call.
\<close>

definition admissible_counted_throwing ::
  "real \<Rightarrow> real \<Rightarrow> int \<Rightarrow> bool outcome \<times> int" where
  "admissible_counted_throwing S dS g_eval_calls =
     (if dS = 1 / 4 then Throws else Returns (admissible_limit S dS), g_eval_calls + 1)"

definition throwing_deps :: "(real, real, real, int) Dependencies" where
  "throwing_deps =
     \<lparr> is_admissible = Some admissible_counted_throwing,
       neutral_step = Some (lift_neutral neutral_zero),
       scale_step = Some (lift_transform scale_mul),
       project_step = Some (lift_transform project_clamp) \<rparr>"

text \<open>The counting host of the integration test with \<open>project_clamp\<close> added.\<close>

definition counted_project_deps :: "(real, real, real, int) Dependencies" where
  "counted_project_deps =
     \<lparr> is_admissible = Some admissible_counted,
       neutral_step = Some (lift_neutral neutral_zero),
       scale_step = None,
       project_step = Some (lift_transform project_clamp) \<rparr>"

definition flipping_deps :: "(real, real, real, bool) Dependencies" where
  "flipping_deps =
     \<lparr> is_admissible = Some (\<lambda>S dS flag. (Returns flag, \<not> flag)),
       neutral_step = Some (lift_neutral neutral_zero),
       scale_step = None,
       project_step = None \<rparr>"

section \<open>Basic facts\<close>

lemma pure_deps_sel [simp]:
  "is_admissible (pure_deps adm nz sc pj) = map_option lift_adm adm"
  "neutral_step (pure_deps adm nz sc pj) = map_option lift_neutral nz"
  "scale_step (pure_deps adm nz sc pj) = map_option lift_transform sc"
  "project_step (pure_deps adm nz sc pj) = map_option lift_transform pj"
  by (simp_all add: pure_deps_def)

lemma neutral_safe_pure:
  "neutral_step deps = Some (lift_neutral nz) \<Longrightarrow>
     neutral_safe deps step_init (h, cs) = (nz, (h, cs @ [NeutralStep]))"
  by (simp add: neutral_safe_def lift_neutral_def)

lemma safe_is_admissible_pure:
  "safe_is_admissible (lift_adm adm) S dS (h, cs) =
     ((case adm S dS of Returns b \<Rightarrow> (True, b) | Throws \<Rightarrow> (False, False)),
      (h, cs @ [IsAdmissible S dS]))"
  by (simp add: safe_is_admissible_def lift_adm_def split: outcome.splits)

lemma k_at_0 [simp]: "k_at f 0 = 1"
  by (simp add: k_at_def)

lemma k_at_Suc [simp]: "k_at f (Suc i) = k_at f i * f"
  by (simp add: k_at_def)

lemma attempt_calls_empty [simp]: "attempt_calls sc S proposed f step_init i i = []"
  by (simp add: attempt_calls_def)


text \<open>One iteration of the loop on pure capabilities.\<close>

lemma scale_attempts_pure_step:
  assumes nz: "neutral_step deps = Some (lift_neutral nz)"
    and i: "i < max_scale_attempts cfg"
  shows "scale_attempts cfg deps step_init (lift_adm adm) (lift_transform sc) S proposed i k (h, cs) =
     (case sc proposed k step_init of
        (ok, scaled) \<Rightarrow>
          if \<not> ok then (nz, (h, cs @ [ScaleStep proposed k, NeutralStep]))
          else (case adm S scaled of
                  Throws \<Rightarrow>
                    (nz, (h, cs @ [ScaleStep proposed k, IsAdmissible S scaled, NeutralStep]))
                | Returns b \<Rightarrow>
                    if b then (scaled, (h, cs @ [ScaleStep proposed k, IsAdmissible S scaled]))
                    else scale_attempts cfg deps step_init (lift_adm adm) (lift_transform sc)
                           S proposed (Suc i) (k * scale_factor cfg)
                           (h, cs @ [ScaleStep proposed k, IsAdmissible S scaled])))"
  using i
  by (subst scale_attempts.simps)
     (simp add: lift_transform_def safe_is_admissible_pure neutral_safe_pure [OF nz]
        split: prod.splits outcome.splits)

lemma scale_attempts_done:
  assumes "neutral_step deps = Some (lift_neutral nz)"
    and "\<not> i < max_scale_attempts cfg"
  shows "scale_attempts cfg deps step_init adm sc S proposed i k (h, cs) =
     (nz, (h, cs @ [NeutralStep]))"
  using assms by (subst scale_attempts.simps) (simp add: neutral_safe_pure)


lemma adm_count_append [simp]: "adm_count (xs @ ys) = adm_count xs + adm_count ys"
  by (simp add: adm_count_def)

lemma adm_count_simps [simp]:
  "adm_count [] = 0"
  "adm_count (IsAdmissible S dS # cs) = Suc (adm_count cs)"
  "adm_count (NeutralStep # cs) = adm_count cs"
  "adm_count (ScaleStep x k # cs) = adm_count cs"
  "adm_count (ProjectStep S dS # cs) = adm_count cs"
  by (simp_all add: adm_count_def)

lemma adm_count_neutral_safe:
  "adm_count (snd (snd (neutral_safe deps step_init w))) = adm_count (snd w)"
  by (simp add: neutral_safe_def split: option.splits prod.splits)

lemma adm_count_safe_is_admissible:
  "adm_count (snd (snd (safe_is_admissible adm S dS w))) = Suc (adm_count (snd w))"
  by (simp add: safe_is_admissible_def split: prod.splits outcome.splits)

lemma adm_count_scale_attempts:
  "adm_count (snd (snd (scale_attempts cfg deps step_init adm sc S proposed i k w)))
     \<le> adm_count (snd w) + (max_scale_attempts cfg - i)"
proof (induction cfg deps step_init adm sc S proposed i k w rule: scale_attempts.induct)
  case (1 cfg deps step_init adm sc S proposed i k w)
  show ?case
  proof (cases "i < max_scale_attempts cfg")
    case False
    then show ?thesis
      by (subst scale_attempts.simps) (simp add: adm_count_neutral_safe)
  next
    case lt: True
    obtain ok scaled h1 where c: "sc proposed k step_init (fst w) = ((ok, scaled), h1)"
      by (metis prod.exhaust)
    let ?w1 = "(h1, snd w @ [ScaleStep proposed k])"
    obtain evaluated admissible w2 where
      e: "safe_is_admissible adm S scaled ?w1 = ((evaluated, admissible), w2)"
      by (metis prod.exhaust)
    have w2: "adm_count (snd w2) = Suc (adm_count (snd w))"
      using adm_count_safe_is_admissible [of adm S scaled ?w1] e by simp
    show ?thesis
    proof (cases "ok \<and> evaluated \<and> \<not> admissible")
      case True
      then have "adm_count (snd (snd (scale_attempts cfg deps step_init adm sc S proposed
                   (i + 1) (k * scale_factor cfg) w2)))
                 \<le> adm_count (snd w2) + (max_scale_attempts cfg - (i + 1))"
        using "1.IH" [OF lt c [symmetric] refl _ e [symmetric] refl] by simp
      then show ?thesis
        using lt c e True w2 by (subst scale_attempts.simps) simp
    next
      case False
      then show ?thesis
        using lt c e w2
        by (subst scale_attempts.simps) (auto simp add: adm_count_neutral_safe)
    qed
  qed
qed

lemma adm_count_enforce_scale:
  "adm_count (snd (snd (enforce_scale cfg deps step_init adm S proposed w)))
     \<le> adm_count (snd w) + max_scale_attempts cfg"
  using adm_count_scale_attempts [of cfg deps step_init adm _ S proposed 0 1 w]
  by (simp add: enforce_scale_def adm_count_neutral_safe split: option.splits)

lemma adm_count_enforce_project:
  "adm_count (snd (snd (enforce_project deps step_init adm S proposed w)))
     \<le> Suc (adm_count (snd w))"
proof (cases "project_step deps")
  case None
  then show ?thesis by (simp add: enforce_project_def adm_count_neutral_safe)
next
  case (Some pj)
  obtain ok projected h1 where c: "pj S proposed step_init (fst w) = ((ok, projected), h1)"
    by (metis prod.exhaust)
  let ?w1 = "(h1, snd w @ [ProjectStep S proposed])"
  obtain evaluated admissible w2 where
    e: "safe_is_admissible adm S projected ?w1 = ((evaluated, admissible), w2)"
    by (metis prod.exhaust)
  have "adm_count (snd w2) = Suc (adm_count (snd w))"
    using adm_count_safe_is_admissible [of adm S projected ?w1] e by simp
  then show ?thesis
    using Some c e by (simp add: enforce_project_def adm_count_neutral_safe)
qed

lemma project_count_append [simp]:
  "project_count (xs @ ys) = project_count xs + project_count ys"
  by (simp add: project_count_def)

lemma project_count_simps [simp]:
  "project_count [] = 0"
  "project_count (IsAdmissible S dS # cs) = project_count cs"
  "project_count (NeutralStep # cs) = project_count cs"
  "project_count (ScaleStep x k # cs) = project_count cs"
  "project_count (ProjectStep S dS # cs) = Suc (project_count cs)"
  by (simp_all add: project_count_def)

lemma project_count_neutral_safe:
  "project_count (snd (snd (neutral_safe deps step_init w))) = project_count (snd w)"
  by (simp add: neutral_safe_def split: option.splits prod.splits)

lemma project_count_safe_is_admissible:
  "project_count (snd (snd (safe_is_admissible adm S dS w))) = project_count (snd w)"
  by (simp add: safe_is_admissible_def split: prod.splits outcome.splits)

lemma project_count_enforce_project:
  "project_step deps = Some pj \<Longrightarrow>
     project_count (snd (snd (enforce_project deps step_init adm S proposed w)))
       = Suc (project_count (snd w))"
proof -
  assume pj: "project_step deps = Some pj"
  obtain ok projected h1 where c: "pj S proposed step_init (fst w) = ((ok, projected), h1)"
    by (metis prod.exhaust)
  let ?w1 = "(h1, snd w @ [ProjectStep S proposed])"
  obtain evaluated admissible w2 where
    e: "safe_is_admissible adm S projected ?w1 = ((evaluated, admissible), w2)"
    by (metis prod.exhaust)
  have "project_count (snd w2) = Suc (project_count (snd w))"
    using project_count_safe_is_admissible [of adm S projected ?w1] unfolding e by simp
  then show ?thesis
    using pj c e by (simp add: enforce_project_def project_count_neutral_safe)
qed

section \<open>Properties of \<open>enforce\<close>\<close>

subsection \<open>Pass-through\<close>

text \<open>
  Claim C2. When \<open>is_admissible\<close> and \<open>neutral_step\<close> are present and
  \<open>is_admissible(S, proposed)\<close> evaluates to true, \<open>enforce(S, proposed)\<close> returns
  \<open>proposed\<close> unchanged, whatever the configuration (so in every mode). The predicate
  may be impure: the hypothesis is about the one evaluation \<open>enforce\<close> performs, from
  the host state \<open>h\<close>. That evaluation is the only capability call.
\<close>

theorem enforce_pass_through:
  assumes "is_admissible deps = Some adm" and "neutral_step deps = Some nz"
    and "adm S proposed h = (Returns True, h')"
  shows "enforce cfg deps step_init S proposed (h, cs)
           = (proposed, (h', cs @ [IsAdmissible S proposed]))"
  using assms by (simp add: enforce_def safe_is_admissible_def)

theorem enforce_pass_through_witness:
  "enforce project_cfg scalar_deps 0 0 (1 / 5) ((), [])
     = (1 / 5, ((), [IsAdmissible 0 (1 / 5)]))
   \<and> enforce scale_cfg scalar_deps 0 0 (1 / 5) ((), [])
     = (1 / 5, ((), [IsAdmissible 0 (1 / 5)]))
   \<and> enforce reject_cfg scalar_deps 0 0 (1 / 5) ((), [])
     = (1 / 5, ((), [IsAdmissible 0 (1 / 5)]))"
proof -
  let ?adm = "lift_adm (\<lambda>S dS. Returns (admissible_limit S dS)) :: real \<Rightarrow> real \<Rightarrow> unit \<Rightarrow> _"
  have a: "is_admissible scalar_deps = Some ?adm"
    by (simp add: scalar_deps_def)
  have n: "neutral_step scalar_deps = Some (lift_neutral neutral_zero)"
    by (simp add: scalar_deps_def)
  have t: "?adm 0 (1 / 5) () = (Returns True, ())"
    by (simp add: lift_adm_def admissible_limit_def is_finite_def)
  show ?thesis
    using enforce_pass_through [OF a n t, of project_cfg 0 "[]"]
      enforce_pass_through [OF a n t, of scale_cfg 0 "[]"]
      enforce_pass_through [OF a n t, of reject_cfg 0 "[]"]
    by simp
qed

subsection \<open>Reject mode\<close>

text \<open>
  Claim C4. In Reject mode, with \<open>is_admissible\<close> and \<open>neutral_step\<close> present, if
  \<open>is_admissible(S, proposed)\<close> evaluates to false then \<open>enforce\<close> returns what
  \<open>neutral_step()\<close> returns, and the capability calls it makes are exactly one call of
  \<open>is_admissible\<close> followed by one call of \<open>neutral_step\<close>. On the scalar hosts, with
  \<open>S = 0.9\<close> and \<open>proposed = 0.5\<close>, it returns \<open>0.0\<close>.
\<close>

theorem enforce_reject:
  "(is_admissible deps = Some adm \<and> neutral_step deps = Some nz \<and> mode cfg = Reject
      \<and> adm S proposed h = (Returns False, h1) \<and> nz h1 = (n, h2)
     \<longrightarrow> enforce cfg deps step_init S proposed (h, cs)
           = (n, (h2, cs @ [IsAdmissible S proposed, NeutralStep])))
   \<and> enforce reject_cfg scalar_deps 0 (9 / 10) (1 / 2) ((), [])
       = (0, ((), [IsAdmissible (9 / 10) (1 / 2), NeutralStep]))"
  by (simp add: enforce_def safe_is_admissible_def neutral_safe_def reject_cfg_def
      scalar_deps_def pure_deps_def lift_adm_def lift_neutral_def admissible_limit_def
      is_finite_def neutral_zero_def)

theorem enforce_reject_witness:
  "mode reject_cfg = Reject
   \<and> \<not> admissible_limit (9 / 10) (1 / 2)
   \<and> enforce reject_cfg scalar_deps 7 (9 / 10) (1 / 2) ((), [ProjectStep 1 2])
       = (0, ((), [ProjectStep 1 2, IsAdmissible (9 / 10) (1 / 2), NeutralStep]))"
  using enforce_reject [where deps = scalar_deps and cfg = reject_cfg
      and adm = "lift_adm (\<lambda>S dS. Returns (admissible_limit S dS))"
      and nz = "lift_neutral neutral_zero" and S = "9 / 10" and proposed = "1 / 2"
      and h = "()" and ?h1.0 = "()" and ?h2.0 = "()" and n = 0 and step_init = 7
      and cs = "[ProjectStep 1 2]"]
  by (simp add: scalar_deps_def reject_cfg_def lift_adm_def lift_neutral_def
      admissible_limit_def is_finite_def neutral_zero_def)

subsection \<open>Bounded work\<close>

text \<open>
  Claim C6. For every state, proposal, configuration (any \<open>scale_factor\<close>: its type is
  arbitrary here, and so is its value) and capability set, pure or not, one call of
  \<open>enforce\<close> returns and evaluates \<open>is_admissible\<close> at most \<open>1 + max_scale_attempts\<close>
  times in Scale mode and at most twice in any other mode. That the call returns is the
  termination proof of \<open>scale_attempts\<close>, the only loop: its measure
  \<open>max_scale_attempts - i\<close> does not involve \<open>k\<close>.
\<close>

theorem enforce_bounded:
  fixes cfg :: "'k::{one,times} Config" and deps :: "('st, 'sp, 'k, 'h) Dependencies"
  shows "adm_count (snd (snd (enforce cfg deps step_init S proposed (h, []))))
     \<le> (if mode cfg = Scale then 1 + max_scale_attempts cfg else 2)"
proof (cases "is_admissible deps")
  case None
  then show ?thesis by (simp add: enforce_def adm_count_neutral_safe)
next
  case (Some adm)
  let ?w = "(h, []) :: ('st, 'sp, 'k, 'h) world"
  obtain evaluated admissible w1 where
    e: "safe_is_admissible adm S proposed ?w = ((evaluated, admissible), w1)"
    by (metis prod.exhaust)
  have w1: "adm_count (snd w1) = 1"
    using adm_count_safe_is_admissible [of adm S proposed ?w] unfolding e by simp
  show ?thesis
    using Some e w1 adm_count_enforce_scale [of cfg deps step_init adm S proposed w1]
      adm_count_enforce_project [of deps step_init adm S proposed w1]
    by (cases "mode cfg") (simp_all add: enforce_def adm_count_neutral_safe)
qed

theorem enforce_bounded_witness:
  "adm_count (snd (snd (enforce scale_stuck_cfg scalar_deps 0 (9 / 10) (1 / 2) ((), [])))) \<le> 5
   \<and> adm_count (snd (snd (enforce (scale_stuck_cfg \<lparr> scale_factor := 2 \<rparr>) scalar_deps
                               0 (9 / 10) (1 / 2) ((), [])))) \<le> 5
   \<and> adm_count (snd (snd (enforce (scale_stuck_cfg \<lparr> scale_factor := - 3 \<rparr>) scalar_deps
                               0 (9 / 10) (1 / 2) ((), [])))) \<le> 5
   \<and> adm_count (snd (snd (enforce project_cfg scalar_project_deps 0 (9 / 10) (1 / 2) ((), []))))
       \<le> 2
   \<and> adm_count (snd (snd (enforce reject_cfg scalar_deps 0 (9 / 10) (1 / 2) ((), [])))) \<le> 2
   \<and> adm_count (snd (snd (enforce scale_cfg counted_deps 0 (9 / 10) (1 / 2) (0, [])))) \<le> 17"
  using enforce_bounded [of scale_stuck_cfg scalar_deps 0 "9 / 10" "1 / 2" "()"]
    enforce_bounded [of "scale_stuck_cfg \<lparr> scale_factor := 2 \<rparr>" scalar_deps 0
      "9 / 10" "1 / 2" "()"]
    enforce_bounded [of "scale_stuck_cfg \<lparr> scale_factor := - 3 \<rparr>" scalar_deps 0
      "9 / 10" "1 / 2" "()"]
    enforce_bounded [of project_cfg scalar_project_deps 0 "9 / 10" "1 / 2" "()"]
    enforce_bounded [of reject_cfg scalar_deps 0 "9 / 10" "1 / 2" "()"]
    enforce_bounded [of scale_cfg counted_deps 0 "9 / 10" "1 / 2" 0]
  by (simp add: scale_stuck_cfg_def project_cfg_def reject_cfg_def scale_cfg_def)

text \<open>
  The run of the integration test: \<open>g_eval_calls\<close> goes from 0 to 5, within the bound
  \<open>1 + 16\<close> that the test requires.
\<close>

lemma counted_run:
  "enforce scale_cfg counted_deps 0 (9 / 10) (1 / 2) (0, [])
     = (1 / 16, (5, [IsAdmissible (9 / 10) (1 / 2),
          ScaleStep (1 / 2) 1, IsAdmissible (9 / 10) (1 / 2),
          ScaleStep (1 / 2) (1 / 2), IsAdmissible (9 / 10) (1 / 4),
          ScaleStep (1 / 2) (1 / 4), IsAdmissible (9 / 10) (1 / 8),
          ScaleStep (1 / 2) (1 / 8), IsAdmissible (9 / 10) (1 / 16)]))"
  by (simp add: enforce_def enforce_scale_def scale_attempts.simps safe_is_admissible_def
      counted_deps_def admissible_counted_def lift_transform_def scale_mul_def
      admissible_limit_def is_finite_def scale_cfg_def)

subsection \<open>Missing capabilities\<close>

text \<open>
  Claim C7. If \<open>is_admissible\<close> or \<open>neutral_step\<close> is absent, \<open>enforce\<close> returns the
  engine's neutral step at once: with \<open>is_admissible\<close> absent and \<open>neutral_step\<close>
  present that is the value of \<open>neutral_step()\<close>, and the call of \<open>neutral_step\<close> is the
  only capability call; with \<open>neutral_step\<close> absent it is the fallback \<open>Step{}\<close> of
  \<open>neutral_safe\<close>, and no capability is called. If the mode is Scale and \<open>scale_step\<close>
  is absent, or the mode is Project and \<open>project_step\<close> is absent, then on a proposal
  that \<open>is_admissible\<close> evaluates to false \<open>enforce\<close> returns \<open>neutral_step()\<close>.
\<close>

theorem enforce_missing_capability:
  "(is_admissible deps = None \<and> neutral_step deps = Some nz \<and> nz h = (n, h')
      \<longrightarrow> enforce cfg deps step_init S proposed (h, cs) = (n, (h', cs @ [NeutralStep])))
   \<and> (neutral_step deps = None
      \<longrightarrow> enforce cfg deps step_init S proposed (h, cs) = (step_init, (h, cs)))
   \<and> (is_admissible deps = Some adm \<and> neutral_step deps = Some nz
        \<and> adm S proposed h = (Returns False, h1) \<and> nz h1 = (n1, h2)
        \<and> (mode cfg = Scale \<and> scale_step deps = None
             \<or> mode cfg = Project \<and> project_step deps = None)
      \<longrightarrow> enforce cfg deps step_init S proposed (h, cs)
            = (n1, (h2, cs @ [IsAdmissible S proposed, NeutralStep])))"
  by (auto simp add: enforce_def safe_is_admissible_def neutral_safe_def enforce_scale_def
      enforce_project_def split: option.splits)

theorem enforce_missing_capability_witness:
  "enforce scale_cfg (pure_deps None (Some neutral_zero) (Some scale_mul) None)
       7 (9 / 10) (1 / 2) ((), [])
     = (0, ((), [NeutralStep]))
   \<and> enforce scale_cfg scalar_deps_null_neutral 7 (9 / 10) (1 / 2) ((), []) = (7, ((), []))
   \<and> enforce scale_cfg scalar_project_deps 7 (9 / 10) (1 / 2) ((), [])
     = (0, ((), [IsAdmissible (9 / 10) (1 / 2), NeutralStep]))
   \<and> enforce project_cfg scalar_deps 7 (9 / 10) (1 / 2) ((), [])
     = (0, ((), [IsAdmissible (9 / 10) (1 / 2), NeutralStep]))"
  using
    enforce_missing_capability [where deps = "pure_deps None (Some neutral_zero) (Some scale_mul) None"
      and nz = "lift_neutral neutral_zero" and h = "()" and h' = "()" and n = 0
      and cfg = scale_cfg and step_init = 7 and S = "9 / 10" and proposed = "1 / 2" and cs = "[]"]
    enforce_missing_capability [where deps = scalar_deps_null_neutral
      and cfg = scale_cfg and step_init = 7 and S = "9 / 10" and proposed = "1 / 2"
      and h = "()" and cs = "[]"]
    enforce_missing_capability [where deps = scalar_project_deps
      and adm = "lift_adm (\<lambda>S dS. Returns (admissible_limit S dS))"
      and nz = "lift_neutral neutral_zero" and h = "()" and ?h1.0 = "()" and ?h2.0 = "()"
      and ?n1.0 = 0 and cfg = scale_cfg and step_init = 7 and S = "9 / 10" and proposed = "1 / 2"
      and cs = "[]"]
    enforce_missing_capability [where deps = scalar_deps
      and adm = "lift_adm (\<lambda>S dS. Returns (admissible_limit S dS))"
      and nz = "lift_neutral neutral_zero" and h = "()" and ?h1.0 = "()" and ?h2.0 = "()"
      and ?n1.0 = 0 and cfg = project_cfg and step_init = 7 and S = "9 / 10" and proposed = "1 / 2"
      and cs = "[]"]
  by (simp add: scalar_deps_def scalar_project_deps_def scalar_deps_null_neutral_def
      scale_cfg_def project_cfg_def lift_adm_def lift_neutral_def admissible_limit_def
      is_finite_def neutral_zero_def)

subsection \<open>Null \<open>neutral_step\<close>\<close>

text \<open>
  Claim C10. If \<open>neutral_step\<close> is null, \<open>enforce\<close> returns the value-initialised
  \<open>Step{}\<close> for every state, proposal, configuration (so in every mode) and whatever
  the other three capabilities are, and it calls no capability: neither the log nor the
  host state changes, so \<open>is_admissible\<close> is not invoked. In particular a proposal
  other than \<open>Step{}\<close> is not returned, even when \<open>is_admissible\<close> would accept it.
\<close>

theorem enforce_null_neutral:
  "neutral_step deps = None \<longrightarrow>
     enforce cfg deps step_init S proposed w = (step_init, w)
     \<and> (proposed \<noteq> step_init \<longrightarrow> fst (enforce cfg deps step_init S proposed w) \<noteq> proposed)"
  by (simp add: enforce_def neutral_safe_def split: option.splits)

theorem enforce_null_neutral_witness:
  "neutral_step scalar_deps_null_neutral = None
   \<and> admissible_limit 0 (1 / 5)
   \<and> enforce reject_cfg scalar_deps_null_neutral 0 0 (1 / 5) ((), []) = (0, ((), []))
   \<and> fst (enforce reject_cfg scalar_deps_null_neutral 0 0 (1 / 5) ((), [])) \<noteq> 1 / 5"
  using enforce_null_neutral [where deps = scalar_deps_null_neutral and cfg = reject_cfg
      and step_init = 0 and S = 0 and proposed = "1 / 5" and w = "((), [])"]
  by (simp add: scalar_deps_null_neutral_def admissible_limit_def is_finite_def)

section \<open>The engine on pure capabilities\<close>

text \<open>On pure capabilities the loop leaves the host state alone, appends to the log calls
  that do not depend on the world it started from, and returns a step that the predicate
  accepts or the neutral step.\<close>

lemma scale_attempts_pure:
  fixes deps :: "('st, 'sp, 'k::{one,times}, 'h) Dependencies"
  assumes nz: "neutral_step deps = Some (lift_neutral nz)"
  shows "\<exists>r tr. (adm S r = Returns True \<or> r = nz)
           \<and> (\<forall>(h::'h) cs. scale_attempts cfg deps step_init (lift_adm adm) (lift_transform sc)
                  S proposed i k (h, cs) = (r, (h, cs @ tr)))"
proof (induction "max_scale_attempts cfg - i" arbitrary: i k)
  case 0
  then have "\<not> i < max_scale_attempts cfg" by simp
  then show ?case
    by (intro exI [of _ nz] exI [of _ "[NeutralStep]"])
      (simp add: scale_attempts_done [OF nz])
next
  case (Suc d)
  then have lt: "i < max_scale_attempts cfg" and d: "d = max_scale_attempts cfg - Suc i"
    by simp_all
  obtain ok scaled where c: "sc proposed k step_init = (ok, scaled)"
    by (metis prod.exhaust)
  show ?case
  proof (cases "ok \<and> adm S scaled = Returns False")
    case True
    from Suc.hyps(1) [OF d, of "k * scale_factor cfg"]
    obtain r tr where r: "adm S r = Returns True \<or> r = nz"
      and run: "\<And>(h::'h) cs. scale_attempts cfg deps step_init (lift_adm adm) (lift_transform sc)
                  S proposed (Suc i) (k * scale_factor cfg) (h, cs) = (r, (h, cs @ tr))"
      by blast
    have "\<forall>(h::'h) cs. scale_attempts cfg deps step_init (lift_adm adm) (lift_transform sc)
                  S proposed i k (h, cs)
             = (r, (h, cs @ ([ScaleStep proposed k, IsAdmissible S scaled] @ tr)))"
      using True by (simp add: scale_attempts_pure_step [OF nz lt] c run)
    with r show ?thesis by blast
  next
    case False
    show ?thesis
    proof (cases ok)
      case nok: False
      then show ?thesis
        by (intro exI [of _ nz] exI [of _ "[ScaleStep proposed k, NeutralStep]"])
          (simp add: scale_attempts_pure_step [OF nz lt] c)
    next
      case ok: True
      show ?thesis
      proof (cases "adm S scaled")
        case Throws
        then show ?thesis
          using ok
          by (intro exI [of _ nz]
              exI [of _ "[ScaleStep proposed k, IsAdmissible S scaled, NeutralStep]"])
            (simp add: scale_attempts_pure_step [OF nz lt] c)
      next
        case (Returns b)
        with False ok have b by simp
        then show ?thesis
          using ok Returns
          by (intro exI [of _ scaled]
              exI [of _ "[ScaleStep proposed k, IsAdmissible S scaled]"])
            (simp add: scale_attempts_pure_step [OF nz lt] c)
      qed
    qed
  qed
qed

lemma enforce_scale_pure:
  fixes deps :: "('st, 'sp, 'k::{one,times}, 'h) Dependencies"
  assumes nz: "neutral_step deps = Some (lift_neutral nz)"
    and sc: "scale_step deps = map_option lift_transform sc"
  shows "\<exists>r tr. (adm S r = Returns True \<or> r = nz)
           \<and> (\<forall>(h::'h) cs. enforce_scale cfg deps step_init (lift_adm adm) S proposed (h, cs)
                 = (r, (h, cs @ tr)))"
proof (cases sc)
  case None
  then show ?thesis
    using sc by (intro exI [of _ nz] exI [of _ "[NeutralStep]"])
      (simp add: enforce_scale_def neutral_safe_pure [OF nz])
next
  case (Some f)
  then show ?thesis
    using sc scale_attempts_pure [OF nz, of adm S cfg step_init f proposed 0 1]
    by (simp add: enforce_scale_def)
qed

lemma enforce_project_pure:
  fixes deps :: "('st, 'sp, 'k, 'h) Dependencies"
  assumes nz: "neutral_step deps = Some (lift_neutral nz)"
    and pj: "project_step deps = map_option lift_transform pj"
  shows "\<exists>r tr. (adm S r = Returns True \<or> r = nz)
           \<and> (\<forall>(h::'h) cs. enforce_project deps step_init (lift_adm adm) S proposed (h, cs)
                 = (r, (h, cs @ tr)))"
proof (cases pj)
  case None
  then show ?thesis
    using pj by (intro exI [of _ nz] exI [of _ "[NeutralStep]"])
      (simp add: enforce_project_def neutral_safe_pure [OF nz])
next
  case (Some g)
  obtain ok projected where c: "g S proposed step_init = (ok, projected)"
    by (metis prod.exhaust)
  show ?thesis
  proof (cases "ok \<and> adm S projected = Returns True")
    case True
    then show ?thesis
      using pj Some c
      by (intro exI [of _ projected]
          exI [of _ "[ProjectStep S proposed, IsAdmissible S projected]"])
        (simp add: enforce_project_def lift_transform_def safe_is_admissible_pure)
  next
    case False
    then show ?thesis
      using pj Some c
      by (intro exI [of _ nz]
          exI [of _ "ProjectStep S proposed
                      # (if ok then [IsAdmissible S projected] else []) @ [NeutralStep]"])
        (auto simp add: enforce_project_def lift_transform_def safe_is_admissible_pure
          neutral_safe_pure [OF nz] split: outcome.splits)
  qed
qed

lemma enforce_pure:
  fixes D :: "('st, 'sp, 'k::{one,times}, 'h) Dependencies"
  assumes D: "D = pure_deps (Some adm) (Some nz) sc pj"
  shows "\<exists>r tr. (adm S r = Returns True \<or> r = nz)
           \<and> (\<forall>(h::'h) cs. enforce cfg D step_init S proposed (h, cs) = (r, (h, cs @ tr)))"
proof -
  have n: "neutral_step D = Some (lift_neutral nz)"
    and s: "scale_step D = map_option lift_transform sc"
    and p: "project_step D = map_option lift_transform pj"
    and a: "is_admissible D = Some (lift_adm adm)"
    by (simp_all add: D)
  show ?thesis
  proof (cases "adm S proposed")
    case Throws
    then show ?thesis
      by (intro exI [of _ nz] exI [of _ "[IsAdmissible S proposed, NeutralStep]"])
        (simp add: enforce_def a n safe_is_admissible_pure neutral_safe_pure [OF n])
  next
    case (Returns b)
    show ?thesis
    proof (cases b)
      case True
      then show ?thesis
        using Returns
        by (intro exI [of _ proposed] exI [of _ "[IsAdmissible S proposed]"])
          (simp add: enforce_def a n safe_is_admissible_pure)
    next
      case False
      have neutral: "\<exists>r tr. (adm S r = Returns True \<or> r = nz)
           \<and> (\<forall>(h::'h) cs. neutral_safe D step_init (h, cs) = (r, (h, cs @ tr)))"
        by (intro exI [of _ nz] exI [of _ "[NeutralStep]"]) (simp add: neutral_safe_pure [OF n])
      have "\<exists>r tr. (adm S r = Returns True \<or> r = nz)
           \<and> (\<forall>(h::'h) cs.
                 (case mode cfg of
                    Reject \<Rightarrow> neutral_safe D step_init (h, cs)
                  | Scale \<Rightarrow> enforce_scale cfg D step_init (lift_adm adm) S proposed (h, cs)
                  | Project \<Rightarrow> enforce_project D step_init (lift_adm adm) S proposed (h, cs)
                  | OutOfRange \<Rightarrow> neutral_safe D step_init (h, cs)) = (r, (h, cs @ tr)))"
        using neutral enforce_scale_pure [OF n s, of adm S cfg step_init proposed]
          enforce_project_pure [OF n p, of adm S step_init proposed]
        by (cases "mode cfg") simp_all
      then obtain r tr where r: "adm S r = Returns True \<or> r = nz"
        and run: "\<And>(h::'h) cs.
                 (case mode cfg of
                    Reject \<Rightarrow> neutral_safe D step_init (h, cs)
                  | Scale \<Rightarrow> enforce_scale cfg D step_init (lift_adm adm) S proposed (h, cs)
                  | Project \<Rightarrow> enforce_project D step_init (lift_adm adm) S proposed (h, cs)
                  | OutOfRange \<Rightarrow> neutral_safe D step_init (h, cs)) = (r, (h, cs @ tr))"
        by blast
      have "\<forall>(h::'h) cs. enforce cfg D step_init S proposed (h, cs)
               = (r, (h, cs @ (IsAdmissible S proposed # tr)))"
        using Returns False
        by (simp add: enforce_def a n safe_is_admissible_pure run)
      with r show ?thesis by blast
    qed
  qed
qed


lemma enforce_pure_world:
  fixes D :: "('st, 'sp, 'k::{one,times}, 'h) Dependencies"
  assumes D: "D = pure_deps adm nz sc pj"
  shows "\<exists>r tr. \<forall>(h::'h) cs. enforce cfg D step_init S proposed (h, cs) = (r, (h, cs @ tr))"
proof (cases nz)
  case None
  then show ?thesis
    by (intro exI [of _ step_init] exI [of _ "[]"])
      (simp add: D enforce_def neutral_safe_def split: option.splits)
next
  case nz: (Some n)
  show ?thesis
  proof (cases adm)
    case None
    then show ?thesis
      using nz by (intro exI [of _ n] exI [of _ "[NeutralStep]"])
        (simp add: D enforce_def neutral_safe_pure)
  next
    case (Some a)
    show ?thesis
      using enforce_pure [of D a n sc pj S cfg step_init proposed] D nz Some by blast
  qed
qed



section \<open>Properties of \<open>enforce\<close> on pure capabilities\<close>

subsection \<open>Safety\<close>

text \<open>
  Claim C1. For every state \<open>S\<close> and proposal, when the capabilities are pure functions
  and \<open>is_admissible\<close> and \<open>neutral_step\<close> are supplied, the step \<open>enforce\<close> returns
  is one for which \<open>is_admissible(S, returned)\<close> is true, or it is equal to
  \<open>neutral_step()\<close>. The claim supposes all four slots supplied and the predicate total;
  the theorem needs neither: \<open>sc\<close> and \<open>pj\<close> may be null and \<open>adm\<close> may raise.
\<close>

theorem enforce_safety:
  fixes w :: "('st, 'sp, 'k::{one,times}, 'h) world"
  shows "adm S (fst (enforce cfg (pure_deps (Some adm) (Some nz) sc pj) step_init S proposed w))
       = Returns True
   \<or> fst (enforce cfg (pure_deps (Some adm) (Some nz) sc pj) step_init S proposed w) = nz"
proof -
  obtain r tr where r: "adm S r = Returns True \<or> r = nz" and
    run: "\<And>(h::'h) cs.
            enforce cfg (pure_deps (Some adm) (Some nz) sc pj) step_init S proposed (h, cs)
              = (r, (h, cs @ tr))"
    using enforce_pure [OF refl, of adm S nz cfg sc pj step_init proposed] by blast
  have "fst (enforce cfg (pure_deps (Some adm) (Some nz) sc pj) step_init S proposed w) = r"
    using run [of "fst w" "snd w"] by simp
  with r show ?thesis by simp
qed

theorem enforce_safety_witness:
  "admissible_limit (9 / 10) (fst (enforce scale_cfg scalar_deps 0 (9 / 10) (1 / 2) ((), [])))
   \<or> fst (enforce scale_cfg scalar_deps 0 (9 / 10) (1 / 2) ((), [])) = 0"
  using enforce_safety [where adm = "\<lambda>S dS. Returns (admissible_limit S dS)" and S = "9 / 10"
      and cfg = scale_cfg and nz = neutral_zero and sc = "Some scale_mul" and pj = None
      and step_init = 0 and proposed = "1 / 2" and w = "((), [])"]
  by (simp add: scalar_deps_def neutral_zero_def)

subsection \<open>Scale mode\<close>



subsection \<open>Project mode\<close>

text \<open>
  Claim C5, as amended. In Project mode with \<open>project_step\<close> present and the proposal
  evaluated inadmissible, \<open>enforce\<close> calls \<open>project_step\<close> exactly once. If the transform
  reports failure (\<open>ok\<close> false), or the evaluation of the projected step raises, or the
  projected step is evaluated inadmissible, \<open>enforce\<close> returns what \<open>neutral_step()\<close>
  returns; otherwise it returns the projected step. This holds for any capabilities, pure
  or not: \<open>h1\<close>, \<open>h2\<close>, \<open>h3\<close>, \<open>h4\<close> are the host states the successive calls leave.
  On the scalar hosts with \<open>project_clamp\<close>, \<open>proposed = 0.5\<close> and \<open>S\<close> the double
  that \<open>0.9\<close> denotes, it returns \<open>1 - S = 900719925474099 / 2^53\<close>, which is within
  \<open>10^-12\<close> of \<open>0.1\<close>. Every operation of that run is exact in binary64 except the first
  sum, which exceeds 1 rounded or not.
\<close>

theorem enforce_project_once:
  fixes cfg :: "'k::{one,times} Config" and deps :: "('st, 'sp, 'k, 'h) Dependencies"
  shows
  "(mode cfg = Project \<and> is_admissible deps = Some adm \<and> neutral_step deps = Some nz
      \<and> project_step deps = Some pj \<and> adm S proposed h = (Returns False, h1)
     \<longrightarrow> project_count (snd (snd (enforce cfg deps step_init S proposed (h, [])))) = 1)
   \<and> (mode cfg = Project \<and> is_admissible deps = Some adm \<and> neutral_step deps = Some nz
      \<and> project_step deps = Some pj \<and> adm S proposed h = (Returns False, h1)
      \<and> pj S proposed step_init h1 = ((ok, projected), h2)
      \<and> adm S projected h2 = (res, h3)
      \<and> nz (if ok then h3 else h2) = (n, h4)
     \<longrightarrow> enforce cfg deps step_init S proposed (h, cs)
           = (if ok \<and> res = Returns True
              then (projected,
                    (h3, cs @ [IsAdmissible S proposed, ProjectStep S proposed,
                               IsAdmissible S projected]))
              else (n,
                    (h4, cs @ [IsAdmissible S proposed, ProjectStep S proposed]
                            @ (if ok then [IsAdmissible S projected] else [])
                            @ [NeutralStep]))))
   \<and> enforce project_cfg scalar_project_deps 0 double_0_9 (1 / 2) ((), [])
       = (900719925474099 / 2 ^ 53,
          ((), [IsAdmissible double_0_9 (1 / 2), ProjectStep double_0_9 (1 / 2),
                IsAdmissible double_0_9 (900719925474099 / 2 ^ 53)]))
   \<and> (900719925474099 / 2 ^ 53 :: real) = 1 - double_0_9
   \<and> \<bar>900719925474099 / 2 ^ 53 - 1 / 10 :: real\<bar> < 1 / 10 ^ 12"
proof (intro conjI impI)
  assume "mode cfg = Project \<and> is_admissible deps = Some adm \<and> neutral_step deps = Some nz
      \<and> project_step deps = Some pj \<and> adm S proposed h = (Returns False, h1)"
  then show "project_count (snd (snd (enforce cfg deps step_init S proposed (h, [])))) = 1"
    using project_count_enforce_project [of deps pj step_init adm S proposed
        "(h1, [IsAdmissible S proposed])"]
    by (simp add: enforce_def safe_is_admissible_def)
next
  assume a: "mode cfg = Project \<and> is_admissible deps = Some adm \<and> neutral_step deps = Some nz
      \<and> project_step deps = Some pj \<and> adm S proposed h = (Returns False, h1)
      \<and> pj S proposed step_init h1 = ((ok, projected), h2)
      \<and> adm S projected h2 = (res, h3)
      \<and> nz (if ok then h3 else h2) = (n, h4)"
  show "enforce cfg deps step_init S proposed (h, cs)
           = (if ok \<and> res = Returns True
              then (projected,
                    (h3, cs @ [IsAdmissible S proposed, ProjectStep S proposed,
                               IsAdmissible S projected]))
              else (n,
                    (h4, cs @ [IsAdmissible S proposed, ProjectStep S proposed]
                            @ (if ok then [IsAdmissible S projected] else [])
                            @ [NeutralStep])))"
    using a
    by (cases ok; cases res)
      (auto simp add: enforce_def enforce_project_def safe_is_admissible_def neutral_safe_def)
next
  show "enforce project_cfg scalar_project_deps 0 double_0_9 (1 / 2) ((), [])
       = (900719925474099 / 2 ^ 53,
          ((), [IsAdmissible double_0_9 (1 / 2), ProjectStep double_0_9 (1 / 2),
                IsAdmissible double_0_9 (900719925474099 / 2 ^ 53)]))"
    by (simp add: enforce_def enforce_project_def safe_is_admissible_pure project_cfg_def
        scalar_project_deps_def lift_transform_def project_clamp_def admissible_limit_def
        is_finite_def double_0_9_def)
next
  show "(900719925474099 / 2 ^ 53 :: real) = 1 - double_0_9"
    by (simp add: double_0_9_def)
next
  show "\<bar>900719925474099 / 2 ^ 53 - 1 / 10 :: real\<bar> < 1 / 10 ^ 12"
    by simp
qed

theorem enforce_project_once_witness:
  "enforce project_cfg counted_project_deps 7 double_0_9 (1 / 2) (0, [])
     = (900719925474099 / 2 ^ 53,
        (2, [IsAdmissible double_0_9 (1 / 2), ProjectStep double_0_9 (1 / 2),
             IsAdmissible double_0_9 (900719925474099 / 2 ^ 53)]))
   \<and> project_count (snd (snd (enforce project_cfg counted_project_deps 7 double_0_9 (1 / 2)
                                  (0, [])))) = 1
   \<and> enforce project_cfg throwing_deps 7 (3 / 4) (1 / 2) (0, [])
     = (0, (2, [IsAdmissible (3 / 4) (1 / 2), ProjectStep (3 / 4) (1 / 2),
                IsAdmissible (3 / 4) (1 / 4), NeutralStep]))"
proof -
  have c0: "admissible_counted double_0_9 (1 / 2) 0 = (Returns False, 1)"
    by (simp add: admissible_counted_def admissible_limit_def is_finite_def double_0_9_def)
  have p: "lift_transform project_clamp double_0_9 (1 / 2) 7 (1::int)
             = ((True, 900719925474099 / 2 ^ 53), 1)"
    by (simp add: lift_transform_def project_clamp_def is_finite_def double_0_9_def)
  have c1: "admissible_counted double_0_9 (900719925474099 / 2 ^ 53) 1 = (Returns True, 2)"
    by (simp add: admissible_counted_def admissible_limit_def is_finite_def double_0_9_def)
  have t0: "admissible_counted_throwing (3 / 4) (1 / 2) 0 = (Returns False, 1)"
    by (simp add: admissible_counted_throwing_def admissible_limit_def is_finite_def)
  have q: "lift_transform project_clamp (3 / 4) (1 / 2) 7 (1::int) = ((True, 1 / 4), 1)"
    by (simp add: lift_transform_def project_clamp_def is_finite_def)
  have t1: "admissible_counted_throwing (3 / 4) (1 / 4) 1 = (Throws, 2)"
    by (simp add: admissible_counted_throwing_def)
  show ?thesis
    using
      enforce_project_once [where cfg = project_cfg and deps = counted_project_deps
        and adm = admissible_counted and nz = "lift_neutral neutral_zero"
        and pj = "lift_transform project_clamp" and S = double_0_9 and proposed = "1 / 2"
        and h = 0 and ?h1.0 = 1 and ?h2.0 = 1 and ?h3.0 = 2 and ?h4.0 = 2 and n = 0
        and ok = True and projected = "900719925474099 / 2 ^ 53" and res = "Returns True"
        and step_init = 7 and cs = "[]"]
      enforce_project_once [where cfg = project_cfg and deps = throwing_deps
        and adm = admissible_counted_throwing and nz = "lift_neutral neutral_zero"
        and pj = "lift_transform project_clamp" and S = "3 / 4" and proposed = "1 / 2"
        and h = 0 and ?h1.0 = 1 and ?h2.0 = 1 and ?h3.0 = 2 and ?h4.0 = 2 and n = 0
        and ok = True and projected = "1 / 4" and res = Throws
        and step_init = 7 and cs = "[]"]
      c0 p c1 t0 q t1
    by (simp add: project_cfg_def counted_project_deps_def throwing_deps_def
        lift_neutral_def neutral_zero_def)
qed

text \<open>
  The scenario as the claim words it fails: at the double that \<open>0.9\<close> denotes the step
  returned is neither the real number \<open>0.1\<close> nor the double that \<open>0.1\<close> denotes.
\<close>

theorem enforce_project_scenario_counterexample:
  "fst (enforce project_cfg scalar_project_deps 0 double_0_9 (1 / 2) ((), [])) \<noteq> 1 / 10
   \<and> fst (enforce project_cfg scalar_project_deps 0 double_0_9 (1 / 2) ((), [])) \<noteq> double_0_1"
  by (simp add: enforce_def enforce_project_def safe_is_admissible_pure project_cfg_def
      scalar_project_deps_def lift_transform_def project_clamp_def admissible_limit_def
      is_finite_def double_0_9_def double_0_1_def)


subsection \<open>Exceptions of the predicate\<close>

text \<open>Attempts that fail cleanly, for any capabilities, are passed over by the loop.\<close>

lemma scale_attempts_clean:
  assumes "clean_attempts cfg adm sc step_init S proposed m k w = Some (k', w')"
    and "i + m \<le> max_scale_attempts cfg"
  shows "scale_attempts cfg deps step_init adm sc S proposed i k w
           = scale_attempts cfg deps step_init adm sc S proposed (i + m) k' w'"
  using assms
proof (induction m arbitrary: i k w)
  case 0
  then show ?case by simp
next
  case (Suc m)
  from Suc.prems(2) have lt: "i < max_scale_attempts cfg" and le: "Suc i + m \<le> max_scale_attempts cfg"
    by simp_all
  obtain ok scaled h1 where c: "sc proposed k step_init (fst w) = ((ok, scaled), h1)"
    by (metis prod.exhaust)
  obtain res h2 where e: "adm S scaled h1 = (res, h2)"
    by (metis prod.exhaust)
  from Suc.prems(1) c e have ok: ok and res: "res = Returns False"
    and rest: "clean_attempts cfg adm sc step_init S proposed m (k * scale_factor cfg)
                 (h2, snd w @ [ScaleStep proposed k, IsAdmissible S scaled]) = Some (k', w')"
    by (auto split: if_splits outcome.splits)
  have "scale_attempts cfg deps step_init adm sc S proposed i k w
          = scale_attempts cfg deps step_init adm sc S proposed (Suc i) (k * scale_factor cfg)
              (h2, snd w @ [ScaleStep proposed k, IsAdmissible S scaled])"
    using lt c e ok res
    by (subst scale_attempts.simps) (simp add: safe_is_admissible_def)
  also have "\<dots> = scale_attempts cfg deps step_init adm sc S proposed (Suc i + m) k' w'"
    by (rule Suc.IH [OF rest le])
  finally show ?case by simp
qed

text \<open>
  Claim C8. \<open>enforce\<close> always returns a step: an exception of \<open>is_admissible\<close> is turned
  by \<open>safe_is_admissible\<close> into an evaluation failure. For any capabilities, pure or not
  (\<open>h1\<close>, \<open>h2\<close>, \<dots> are the host states the successive calls leave): if the predicate
  raises on the initial check, or on the check of the candidate of attempt
  \<open>m < max_scale_attempts\<close> of the Scale loop after \<open>m\<close> attempts that failed cleanly, or on
  the check of the projected step, then \<open>enforce\<close> returns what \<open>neutral_step()\<close> returns
  and the only capability call after the raising one is that of \<open>neutral_step\<close>. The
  third conjunct says the same of the loop itself, in whatever iteration, multiplier and
  world it stands.
\<close>

theorem enforce_predicate_exception:
  fixes cfg :: "'k::{one,times} Config" and deps :: "('st, 'sp, 'k, 'h) Dependencies"
  shows
  "(is_admissible deps = Some adm \<and> neutral_step deps = Some nz
      \<and> adm S proposed h = (Throws, h1) \<and> nz h1 = (n, h2)
     \<longrightarrow> enforce cfg deps step_init S proposed (h, cs)
           = (n, (h2, cs @ [IsAdmissible S proposed, NeutralStep])))
   \<and> (is_admissible deps = Some adm \<and> neutral_step deps = Some nz
      \<and> scale_step deps = Some sc \<and> mode cfg = Scale
      \<and> adm S proposed h = (Returns False, h1)
      \<and> m < max_scale_attempts cfg
      \<and> clean_attempts cfg adm sc step_init S proposed m 1 (h1, cs @ [IsAdmissible S proposed])
            = Some (k, w)
      \<and> sc proposed k step_init (fst w) = ((True, scaled), h2)
      \<and> adm S scaled h2 = (Throws, h3) \<and> nz h3 = (n, h4)
     \<longrightarrow> enforce cfg deps step_init S proposed (h, cs)
           = (n, (h4, snd w @ [ScaleStep proposed k, IsAdmissible S scaled, NeutralStep])))
   \<and> (neutral_step deps = Some nz \<and> i < max_scale_attempts cfg
      \<and> sc proposed k step_init (fst w) = ((True, scaled), h2)
      \<and> adm S scaled h2 = (Throws, h3) \<and> nz h3 = (n, h4)
     \<longrightarrow> scale_attempts cfg deps step_init adm sc S proposed i k w
           = (n, (h4, snd w @ [ScaleStep proposed k, IsAdmissible S scaled, NeutralStep])))
   \<and> (is_admissible deps = Some adm \<and> neutral_step deps = Some nz
      \<and> project_step deps = Some pj \<and> mode cfg = Project
      \<and> adm S proposed h = (Returns False, h1)
      \<and> pj S proposed step_init h1 = ((True, projected), h2)
      \<and> adm S projected h2 = (Throws, h3) \<and> nz h3 = (n, h4)
     \<longrightarrow> enforce cfg deps step_init S proposed (h, cs)
           = (n, (h4, cs @ [IsAdmissible S proposed, ProjectStep S proposed,
                            IsAdmissible S projected, NeutralStep])))"
proof (intro conjI impI)
  assume "is_admissible deps = Some adm \<and> neutral_step deps = Some nz
      \<and> adm S proposed h = (Throws, h1) \<and> nz h1 = (n, h2)"
  then show "enforce cfg deps step_init S proposed (h, cs)
           = (n, (h2, cs @ [IsAdmissible S proposed, NeutralStep]))"
    by (simp add: enforce_def safe_is_admissible_def neutral_safe_def)
next
  assume a: "neutral_step deps = Some nz \<and> i < max_scale_attempts cfg
      \<and> sc proposed k step_init (fst w) = ((True, scaled), h2)
      \<and> adm S scaled h2 = (Throws, h3) \<and> nz h3 = (n, h4)"
  then show "scale_attempts cfg deps step_init adm sc S proposed i k w
           = (n, (h4, snd w @ [ScaleStep proposed k, IsAdmissible S scaled, NeutralStep]))"
    by (subst scale_attempts.simps) (simp add: safe_is_admissible_def neutral_safe_def)
next
  assume a: "is_admissible deps = Some adm \<and> neutral_step deps = Some nz
      \<and> scale_step deps = Some sc \<and> mode cfg = Scale
      \<and> adm S proposed h = (Returns False, h1)
      \<and> m < max_scale_attempts cfg
      \<and> clean_attempts cfg adm sc step_init S proposed m 1 (h1, cs @ [IsAdmissible S proposed])
            = Some (k, w)
      \<and> sc proposed k step_init (fst w) = ((True, scaled), h2)
      \<and> adm S scaled h2 = (Throws, h3) \<and> nz h3 = (n, h4)"
  then have clean: "clean_attempts cfg adm sc step_init S proposed m 1
                      (h1, cs @ [IsAdmissible S proposed]) = Some (k, w)"
    and m: "0 + m \<le> max_scale_attempts cfg" and lt: "m < max_scale_attempts cfg"
    by simp_all
  have "enforce cfg deps step_init S proposed (h, cs)
          = scale_attempts cfg deps step_init adm sc S proposed 0 1
              (h1, cs @ [IsAdmissible S proposed])"
    using a by (simp add: enforce_def enforce_scale_def safe_is_admissible_def)
  also have "\<dots> = scale_attempts cfg deps step_init adm sc S proposed (0 + m) k w"
    by (rule scale_attempts_clean [OF clean m])
  also have "\<dots> = (n, (h4, snd w @ [ScaleStep proposed k, IsAdmissible S scaled, NeutralStep]))"
    using a lt
    by (subst scale_attempts.simps) (simp add: safe_is_admissible_def neutral_safe_def)
  finally show "enforce cfg deps step_init S proposed (h, cs)
           = (n, (h4, snd w @ [ScaleStep proposed k, IsAdmissible S scaled, NeutralStep]))" .
next
  assume "is_admissible deps = Some adm \<and> neutral_step deps = Some nz
      \<and> project_step deps = Some pj \<and> mode cfg = Project
      \<and> adm S proposed h = (Returns False, h1)
      \<and> pj S proposed step_init h1 = ((True, projected), h2)
      \<and> adm S projected h2 = (Throws, h3) \<and> nz h3 = (n, h4)"
  then show "enforce cfg deps step_init S proposed (h, cs)
           = (n, (h4, cs @ [IsAdmissible S proposed, ProjectStep S proposed,
                            IsAdmissible S projected, NeutralStep]))"
    by (simp add: enforce_def enforce_project_def safe_is_admissible_def neutral_safe_def)
qed

theorem enforce_predicate_exception_witness:
  "enforce reject_cfg throwing_deps 7 0 (1 / 4) (0, [])
     = (0, (1, [IsAdmissible 0 (1 / 4), NeutralStep]))
   \<and> enforce scale_cfg throwing_deps 7 (9 / 10) (1 / 2) (0, [])
     = (0, (3, [IsAdmissible (9 / 10) (1 / 2),
          ScaleStep (1 / 2) 1, IsAdmissible (9 / 10) (1 / 2),
          ScaleStep (1 / 2) (1 / 2), IsAdmissible (9 / 10) (1 / 4), NeutralStep]))
   \<and> scale_attempts scale_cfg throwing_deps 7 admissible_counted_throwing
         (lift_transform scale_mul) (9 / 10) (1 / 2) 15 (1 / 2) (40, [])
     = (0, (41, [ScaleStep (1 / 2) (1 / 2), IsAdmissible (9 / 10) (1 / 4), NeutralStep]))
   \<and> enforce project_cfg throwing_deps 7 (3 / 4) (1 / 2) (0, [])
     = (0, (2, [IsAdmissible (3 / 4) (1 / 2), ProjectStep (3 / 4) (1 / 2),
          IsAdmissible (3 / 4) (1 / 4), NeutralStep]))"
proof -
  have t: "admissible_counted_throwing S (1 / 4) g = (Throws, g + 1)" for S g
    by (simp add: admissible_counted_throwing_def)
  have a0: "admissible_counted_throwing (9 / 10) (1 / 2) g = (Returns False, g + 1)" for g
    by (simp add: admissible_counted_throwing_def admissible_limit_def is_finite_def)
  have s1: "lift_transform scale_mul (1 / 2) 1 7 (g::int) = ((True, 1 / 2), g)" for g
    by (simp add: lift_transform_def scale_mul_def is_finite_def)
  have s2: "lift_transform scale_mul (1 / 2) (1 / 2) 7 (g::int) = ((True, 1 / 4), g)" for g
    by (simp add: lift_transform_def scale_mul_def is_finite_def)
  have cl: "clean_attempts scale_cfg admissible_counted_throwing (lift_transform scale_mul)
              7 (9 / 10) (1 / 2) 1 1 (1, [] @ [IsAdmissible (9 / 10) (1 / 2)])
            = Some (1 / 2, (2, [IsAdmissible (9 / 10) (1 / 2), ScaleStep (1 / 2) 1,
                                IsAdmissible (9 / 10) (1 / 2)]))"
    by (simp add: s1 a0 scale_cfg_def)
  have a1: "admissible_counted_throwing (3 / 4) (1 / 2) 0 = (Returns False, 1)"
    by (simp add: admissible_counted_throwing_def admissible_limit_def is_finite_def)
  have p: "lift_transform project_clamp (3 / 4) (1 / 2) 7 (1::int) = ((True, 1 / 4), 1)"
    by (simp add: lift_transform_def project_clamp_def is_finite_def)
  show ?thesis
    using
      enforce_predicate_exception [where cfg = reject_cfg and deps = throwing_deps
        and adm = admissible_counted_throwing and nz = "lift_neutral neutral_zero"
        and S = 0 and proposed = "1 / 4" and h = 0 and ?h1.0 = 1 and ?h2.0 = 1 and n = 0
        and cs = "[]" and step_init = 7]
      enforce_predicate_exception [where cfg = scale_cfg and deps = throwing_deps
        and adm = admissible_counted_throwing and nz = "lift_neutral neutral_zero"
        and sc = "lift_transform scale_mul" and S = "9 / 10" and proposed = "1 / 2"
        and h = 0 and ?h1.0 = 1 and m = 1 and k = "1 / 2"
        and w = "(2, [IsAdmissible (9 / 10) (1 / 2), ScaleStep (1 / 2) 1,
                      IsAdmissible (9 / 10) (1 / 2)])"
        and scaled = "1 / 4" and ?h2.0 = 2 and ?h3.0 = 3 and ?h4.0 = 3 and n = 0
        and cs = "[]" and step_init = 7]
      enforce_predicate_exception [where cfg = scale_cfg and deps = throwing_deps
        and adm = admissible_counted_throwing and nz = "lift_neutral neutral_zero"
        and sc = "lift_transform scale_mul" and S = "9 / 10" and proposed = "1 / 2"
        and i = 15 and k = "1 / 2" and w = "(40, [])"
        and scaled = "1 / 4" and ?h2.0 = 40 and ?h3.0 = 41 and ?h4.0 = 41 and n = 0
        and step_init = 7]
      enforce_predicate_exception [where cfg = project_cfg and deps = throwing_deps
        and adm = admissible_counted_throwing and nz = "lift_neutral neutral_zero"
        and pj = "lift_transform project_clamp" and S = "3 / 4" and proposed = "1 / 2"
        and h = 0 and ?h1.0 = 1 and ?h2.0 = 1 and ?h3.0 = 2 and ?h4.0 = 2 and n = 0
        and projected = "1 / 4" and cs = "[]" and step_init = 7]
      t [of 0 0] t [of "9 / 10" 2] t [of "9 / 10" 40] t [of "3 / 4" 1]
      a0 [of 0] s2 [of 2] s2 [of 40] cl a1 p
    by (simp add: throwing_deps_def scale_cfg_def project_cfg_def lift_neutral_def
        neutral_zero_def)
qed

subsection \<open>Determinism\<close>

text \<open>
  Claim C9. For a fixed configuration and a capability set of pure functions (any of
  them may be null), the step \<open>enforce\<close> returns for given \<open>S\<close> and \<open>proposed\<close> is the
  same from every host state and call log; in particular a second call, made in the
  world the first one left, returns what the first returned.
\<close>

theorem enforce_deterministic:
  fixes w w' :: "('st, 'sp, 'k::{one,times}, 'h) world"
  shows "fst (enforce cfg (pure_deps adm nz sc pj) step_init S proposed w)
     = fst (enforce cfg (pure_deps adm nz sc pj) step_init S proposed w')
   \<and> fst (enforce cfg (pure_deps adm nz sc pj) step_init S proposed
            (snd (enforce cfg (pure_deps adm nz sc pj) step_init S proposed w)))
     = fst (enforce cfg (pure_deps adm nz sc pj) step_init S proposed w)"
proof -
  obtain r tr where
    run: "\<And>(h::'h) cs. enforce cfg (pure_deps adm nz sc pj) step_init S proposed (h, cs)
            = (r, (h, cs @ tr))"
    using enforce_pure_world [OF refl, of cfg adm nz sc pj step_init S proposed] by blast
  have "fst (enforce cfg (pure_deps adm nz sc pj) step_init S proposed v) = r"
    for v :: "('st, 'sp, 'k, 'h) world"
    using run [of "fst v" "snd v"] by simp
  then show ?thesis by simp
qed

theorem enforce_deterministic_witness:
  "fst (enforce scale_cfg scalar_deps 0 (9 / 10) (1 / 2) ((), []))
     = fst (enforce scale_cfg scalar_deps 0 (9 / 10) (1 / 2) ((), [NeutralStep]))
   \<and> fst (enforce scale_cfg scalar_deps 0 (9 / 10) (1 / 2)
            (snd (enforce scale_cfg scalar_deps 0 (9 / 10) (1 / 2) ((), []))))
     = fst (enforce scale_cfg scalar_deps 0 (9 / 10) (1 / 2) ((), []))"
  using enforce_deterministic [where adm = "Some (\<lambda>S dS. Returns (admissible_limit S dS))"
      and S = "9 / 10" and cfg = scale_cfg and nz = "Some neutral_zero"
      and sc = "Some scale_mul" and pj = None and step_init = 0 and proposed = "1 / 2"
      and w = "((), [])" and w' = "((), [NeutralStep])"]
  by (simp add: scalar_deps_def)

text \<open>With an impure predicate two successive calls on the same arguments may differ.\<close>

lemma flipping_not_deterministic:
  "enforce reject_cfg flipping_deps 0 0 (1 / 5) (True, []) = (1 / 5, (False, [IsAdmissible 0 (1 / 5)]))
   \<and> enforce reject_cfg flipping_deps 0 0 (1 / 5) (False, [IsAdmissible 0 (1 / 5)])
       = (0, (True, [IsAdmissible 0 (1 / 5), IsAdmissible 0 (1 / 5), NeutralStep]))"
  by (simp add: enforce_def safe_is_admissible_def neutral_safe_def flipping_deps_def
      lift_neutral_def neutral_zero_def reject_cfg_def)

subsection \<open>The scenarios at the double that \<open>0.9\<close> denotes\<close>

text \<open>
  The Reject and Scale scenarios give the same steps when \<open>S\<close> is the binary64 value
  of \<open>0.9\<close> instead of the real number: the sums compared with the bound are then
  \<open>1.4\<close>, \<open>1.15\<close>, \<open>1.025\<close> and \<open>0.9625\<close> up to \<open>2^-53\<close>, none of them near 1, and
  the products by \<open>k\<close> are exact.
\<close>

text \<open>
  Both constants have a 53-bit significand and lie within half a unit in the last place
  of the decimal they stand for (\<open>2^-54\<close> between \<open>1/2\<close> and \<open>1\<close>, \<open>2^-57\<close> between
  \<open>1/16\<close> and \<open>1/8\<close>), so they are the doubles the literals round to.
\<close>

lemma double_literals_nearest:
  "double_0_9 * 2 ^ 53 = 8106479329266893
   \<and> (2::real) ^ 52 \<le> 8106479329266893 \<and> (8106479329266893::real) < 2 ^ 53
   \<and> \<bar>double_0_9 - 9 / 10\<bar> < 1 / 2 ^ 54
   \<and> double_0_1 * 2 ^ 56 = 7205759403792794
   \<and> (2::real) ^ 52 \<le> 7205759403792794 \<and> (7205759403792794::real) < 2 ^ 53
   \<and> \<bar>double_0_1 - 1 / 10\<bar> < 1 / 2 ^ 57"
  by (simp add: double_0_9_def double_0_1_def)

lemma scenarios_at_double_0_9:
  "fst (enforce reject_cfg scalar_deps 0 double_0_9 (1 / 2) ((), [])) = 0
   \<and> fst (enforce scale_cfg scalar_deps 0 double_0_9 (1 / 2) ((), [])) = 1 / 16
   \<and> fst (enforce scale_stuck_cfg scalar_deps 0 double_0_9 (1 / 2) ((), [])) = 0"
  by (simp add: enforce_def enforce_scale_def scale_attempts.simps safe_is_admissible_pure
      neutral_safe_pure reject_cfg_def scale_cfg_def scale_stuck_cfg_def scalar_deps_def
      lift_transform_def scale_mul_def admissible_limit_def is_finite_def neutral_zero_def
      double_0_9_def)

end
